theory Spec2Isabelle
  imports Complex_Main "HOL-Library.Word"
begin

section \<open>NR ProSe relay selection: data model\<close>

text \<open>
  The C++ type \<^verbatim>\<open>double\<close> of the field \<^verbatim>\<open>rsrp\<close> is used by the selection algorithms only
  through copying and through the comparison operator \<^verbatim>\<open>>\<close>.  A double is therefore
  modelled by its IEEE-754 value class: not-a-number, the two infinities, or a finite
  value (a real number; the two signed zeros compare equal and are both \<open>Finite 0\<close>).
\<close>

datatype double = NaN | NegInf | Finite real | PosInf

text \<open>The operator \<^verbatim>\<open>a > b\<close> on doubles: every comparison with a NaN is false.\<close>

fun dgt :: "double \<Rightarrow> double \<Rightarrow> bool" where
  "dgt NaN b = False"
| "dgt NegInf b = False"
| "dgt (Finite x) NaN = False"
| "dgt (Finite x) NegInf = True"
| "dgt (Finite x) (Finite y) = (y < x)"
| "dgt (Finite x) PosInf = False"
| "dgt PosInf NaN = False"
| "dgt PosInf NegInf = True"
| "dgt PosInf (Finite y) = True"
| "dgt PosInf PosInf = False"

text \<open>
  Modelled from the spec: the structure \<^verbatim>\<open>NrSlUeProse::RelayInfo\<close>, whose declaration is in
  \<^verbatim>\<open>nr-sl-ue-prose.h\<close>.  It is the spec's \<open>RelayCandidate\<close> (an unsigned 32-bit relay
  identifier, an unsigned 32-bit service code, a floating-point signal strength and the
  eligibility flag) under the names of the four members that the selection algorithms
  read and write.
\<close>

record RelayInfo =
  l2Id :: "32 word"
  relayCode :: "32 word"
  rsrp :: double
  eligible :: bool

text \<open>
  The member values of a default-constructed \<^verbatim>\<open>RelayInfo\<close> are fixed by that declaration
  too.  Every function below therefore takes the default-constructed \<^verbatim>\<open>RelayInfo\<close> as its
  first argument \<open>dflt\<close>: it is the value of the temporary \<^verbatim>\<open>NrSlUeProse::RelayInfo()\<close> and
  the initial value of the local \<^verbatim>\<open>NrSlUeProse::RelayInfo relay\<close>.
\<close>

datatype error = OutOfRange | InvalidServiceCode | IteratorPastEnd | AlreadyExists

section \<open>The relay selection algorithms\<close>

subsection \<open>First available\<close>

definition SelectRelay_FirstAvailable :: "RelayInfo \<Rightarrow> RelayInfo list \<Rightarrow> RelayInfo" where
  "SelectRelay_FirstAvailable dflt discoveredRelays =
     (if discoveredRelays \<noteq> [] then discoveredRelays ! 0 else dflt)"

subsection \<open>Random\<close>

text \<open>
  The member \<^verbatim>\<open>m_rand\<close> is an ns-3 \<^verbatim>\<open>UniformRandomVariable\<close>.  Its state is a value of
  an arbitrary type \<open>'g\<close>; its two operations are parameters: \<open>SetStream\<close> yields the state
  of the stream with the given number, and \<open>GetInteger g lo hi\<close> yields the drawn integer
  together with the advanced state.  \<^verbatim>\<open>vector::at\<close> throws when the index is out of range.
\<close>

record 'g NrSlUeProseRelaySelectionAlgorithmRandom =
  m_rand :: 'g


definition SelectRelay_Random ::
  "('g \<Rightarrow> nat \<Rightarrow> nat \<Rightarrow> nat \<times> 'g) \<Rightarrow> RelayInfo
    \<Rightarrow> 'g NrSlUeProseRelaySelectionAlgorithmRandom \<Rightarrow> RelayInfo list
    \<Rightarrow> (error + RelayInfo) \<times> 'g NrSlUeProseRelaySelectionAlgorithmRandom" where
  "SelectRelay_Random GetInteger dflt this discoveredRelays =
     (if discoveredRelays \<noteq> [] then
        (case GetInteger (m_rand this) 0 (length discoveredRelays - 1) of
           (i, g') \<Rightarrow>
             (if i < length discoveredRelays then Inr (discoveredRelays ! i) else Inl OutOfRange,
              this\<lparr>m_rand := g'\<rparr>))
      else (Inr dflt, this))"


subsection \<open>Maximum RSRP\<close>

text \<open>
  The loop over the vector, with the two locals \<^verbatim>\<open>relay\<close> and \<^verbatim>\<open>found\<close> it updates.  The
  32-bit index runs over the whole vector (vectors of fewer than \<open>2 ^ 32\<close> elements).
\<close>

fun MaxRsrp_loop :: "RelayInfo list \<Rightarrow> RelayInfo \<times> bool \<Rightarrow> RelayInfo \<times> bool" where
  "MaxRsrp_loop [] (relay, found) = (relay, found)"
| "MaxRsrp_loop (relayIt # rest) (relay, found) =
     (if dgt (rsrp relayIt) (rsrp relay) \<and> eligible relayIt = True
      then MaxRsrp_loop rest
             (relay\<lparr>l2Id := l2Id relayIt, relayCode := relayCode relayIt,
                    rsrp := rsrp relayIt, eligible := eligible relayIt\<rparr>, True)
      else MaxRsrp_loop rest (relay, found))"

definition SelectRelay_MaxRsrp :: "RelayInfo \<Rightarrow> RelayInfo list \<Rightarrow> RelayInfo" where
  "SelectRelay_MaxRsrp dflt discoveredRelays = fst (MaxRsrp_loop discoveredRelays (dflt, False))"

text \<open>The value of the local \<^verbatim>\<open>found\<close> when the loop ends (it decides which line is logged).\<close>

definition MaxRsrp_found :: "RelayInfo \<Rightarrow> RelayInfo list \<Rightarrow> bool" where
  "MaxRsrp_found dflt discoveredRelays = snd (MaxRsrp_loop discoveredRelays (dflt, False))"


section \<open>The ProSe helper\<close>

text \<open>
  The helper works on net devices and sidelink traffic profiles through pointers and
  references, and hands calls to the simulator's event queue.  The model keeps them in a
  store: devices and traffic profiles are addressed by natural numbers, so that two
  arguments may name the same object, as two pointers may.

  A device is an \<^verbatim>\<open>NrUeNetDevice\<close> with the two values the helper reads from its RRC and
  with its aggregated \<^verbatim>\<open>NrSlUeProse\<close> layer.  \<^verbatim>\<open>NrSlUeProse\<close> is declared in
  \<^verbatim>\<open>nr-sl-ue-prose.h\<close>, and the model does not look into it: every call the helper makes
  on the ProSe layer of a device is recorded, in order, with its arguments; calls handed
  to the simulator are recorded in the event queue.
\<close>

type_synonym Time = int

type_synonym Ipv4Address = "32 word"

text \<open>
  Modelled from the spec: the enumeration \<^verbatim>\<open>NrSlUeProse::DiscoveryRole\<close>, whose declaration
  is in \<^verbatim>\<open>nr-sl-ue-prose.h\<close>; the roles are those of the spec's \<open>DiscoveryEntry\<close>.
\<close>

datatype DiscoveryRole = Announcer | Monitor | Discoverer | Discoveree | RelayUE | RemoteUE

text \<open>
  Of \<^verbatim>\<open>SidelinkInfo\<close> the helper writes the two layer-2 identifiers; the other members of
  the traffic profile pass through unchanged and are left out.
\<close>

record SidelinkInfo =
  m_srcL2Id :: "32 word"
  m_dstL2Id :: "32 word"

datatype ProseCall =
    CallSetImsi "64 word"
  | CallSetL2Id "32 word"
  | CallAddDiscoveryApp "32 word" "32 word" DiscoveryRole

record UeDevice =
  rrc_Imsi :: "64 word"
  rrc_SourceL2Id :: "32 word"
  prose_calls :: "ProseCall list"

text \<open>
  A scheduled call of \<^verbatim>\<open>NrSlUeProse::AddDirectLinkConnection\<close> on the ProSe layer of a
  device, with the six arguments bound at scheduling time.
\<close>

record AddDirectLinkConnectionCall =
  call_time :: Time
  call_ue :: nat
  call_selfL2Id :: "32 word"
  call_selfIp :: Ipv4Address
  call_peerL2Id :: "32 word"
  call_isInitiating :: bool
  call_relayServiceCode :: "32 word"
  call_slInfo :: SidelinkInfo

record Simulation =
  Now :: Time
  devices :: "nat \<Rightarrow> UeDevice"
  slInfos :: "nat \<Rightarrow> SidelinkInfo"
  scheduled :: "AddDirectLinkConnectionCall list"

definition call_prose :: "nat \<Rightarrow> ProseCall \<Rightarrow> Simulation \<Rightarrow> Simulation" where
  "call_prose ue c w =
     w\<lparr>devices := (devices w)(ue := (devices w ue)\<lparr>prose_calls := prose_calls (devices w ue) @ [c]\<rparr>)\<rparr>"

definition SetImsi :: "nat \<Rightarrow> 64 word \<Rightarrow> Simulation \<Rightarrow> Simulation" where
  "SetImsi ue imsi w = call_prose ue (CallSetImsi imsi) w"

definition SetL2Id :: "nat \<Rightarrow> 32 word \<Rightarrow> Simulation \<Rightarrow> Simulation" where
  "SetL2Id ue l2id w = call_prose ue (CallSetL2Id l2id) w"

definition AddDiscoveryApp ::
  "nat \<Rightarrow> 32 word \<Rightarrow> 32 word \<Rightarrow> DiscoveryRole \<Rightarrow> Simulation \<Rightarrow> Simulation" where
  "AddDiscoveryApp ue appCode dstL2Id role w = call_prose ue (CallAddDiscoveryApp appCode dstL2Id role) w"

definition set_dstL2Id :: "nat \<Rightarrow> 32 word \<Rightarrow> Simulation \<Rightarrow> Simulation" where
  "set_dstL2Id sl v w = w\<lparr>slInfos := (slInfos w)(sl := (slInfos w sl)\<lparr>m_dstL2Id := v\<rparr>)\<rparr>"

definition set_srcL2Id :: "nat \<Rightarrow> 32 word \<Rightarrow> Simulation \<Rightarrow> Simulation" where
  "set_srcL2Id sl v w = w\<lparr>slInfos := (slInfos w)(sl := (slInfos w sl)\<lparr>m_srcL2Id := v\<rparr>)\<rparr>"

text \<open>\<^verbatim>\<open>Simulator::Schedule (t, &NrSlUeProse::AddDirectLinkConnection, ...)\<close>: the call is
  queued for the time \<open>t\<close> from now.\<close>

definition Schedule ::
  "Time \<Rightarrow> nat \<Rightarrow> 32 word \<Rightarrow> Ipv4Address \<Rightarrow> 32 word \<Rightarrow> bool \<Rightarrow> 32 word \<Rightarrow> SidelinkInfo
    \<Rightarrow> Simulation \<Rightarrow> Simulation" where
  "Schedule t ue selfL2Id selfIp peerL2Id isInitiating relayServiceCode slInfo w =
     w\<lparr>scheduled := scheduled w @
        [\<lparr>call_time = Now w + t, call_ue = ue, call_selfL2Id = selfL2Id, call_selfIp = selfIp,
          call_peerL2Id = peerL2Id, call_isInitiating = isInitiating,
          call_relayServiceCode = relayServiceCode, call_slInfo = slInfo\<rparr>]\<rparr>"

text \<open>
  \<^verbatim>\<open>NS_FATAL_ERROR\<close> ends the process; it is the result \<open>Inl InvalidServiceCode\<close>, which
  carries no simulation state.
\<close>

definition EstablishL3UeToNetworkRelayConnection ::
  "Time \<Rightarrow> nat \<Rightarrow> Ipv4Address \<Rightarrow> nat \<Rightarrow> nat \<Rightarrow> Ipv4Address \<Rightarrow> nat \<Rightarrow> 32 word
    \<Rightarrow> Simulation \<Rightarrow> error + Simulation" where
  "EstablishL3UeToNetworkRelayConnection t remoteUe remoteUeIp remoteUeSlInfo
       relayUe relayUeIp relayUeSlInfo relayServiceCode w =
     (if relayServiceCode \<le> 0 then Inl InvalidServiceCode
      else
        let w1 = SetImsi remoteUe (rrc_Imsi (devices w remoteUe)) w;
            w2 = SetImsi relayUe (rrc_Imsi (devices w1 relayUe)) w1;
            remoteUeL2Id = rrc_SourceL2Id (devices w2 remoteUe);
            relayUeL2Id = rrc_SourceL2Id (devices w2 relayUe);
            w3 = SetL2Id remoteUe remoteUeL2Id w2;
            w4 = SetL2Id relayUe relayUeL2Id w3;
            w5 = set_dstL2Id remoteUeSlInfo relayUeL2Id w4;
            w6 = set_srcL2Id remoteUeSlInfo remoteUeL2Id w5;
            w7 = set_dstL2Id relayUeSlInfo remoteUeL2Id w6;
            w8 = set_srcL2Id relayUeSlInfo relayUeL2Id w7;
            w9 = Schedule t remoteUe remoteUeL2Id remoteUeIp relayUeL2Id True relayServiceCode
                   (slInfos w8 remoteUeSlInfo) w8
        in Inr (Schedule t relayUe relayUeL2Id relayUeIp remoteUeL2Id False relayServiceCode
                  (slInfos w9 relayUeSlInfo) w9))"

definition StartDiscoveryApp ::
  "nat \<Rightarrow> 32 word \<Rightarrow> 32 word \<Rightarrow> DiscoveryRole \<Rightarrow> Simulation \<Rightarrow> Simulation" where
  "StartDiscoveryApp ueDevice appCode dstL2Id role w =
     (let w1 = SetL2Id ueDevice (rrc_SourceL2Id (devices w ueDevice)) w;
          w2 = SetImsi ueDevice (rrc_Imsi (devices w1 ueDevice)) w1
      in AddDiscoveryApp ueDevice appCode dstL2Id role w2)"

text \<open>
  The loop of \<^verbatim>\<open>StartDiscovery\<close>: \<open>it\<close> runs over \<^verbatim>\<open>appCodes\<close> and \<open>dst\<close> is advanced with
  it.  Dereferencing \<open>dst\<close> when it has reached the end of \<^verbatim>\<open>dstL2Ids\<close> has no defined
  behaviour; it is the result \<open>Inl IteratorPastEnd\<close>.
\<close>

fun StartDiscovery ::
  "nat \<Rightarrow> 32 word list \<Rightarrow> 32 word list \<Rightarrow> DiscoveryRole \<Rightarrow> Simulation \<Rightarrow> error + Simulation" where
  "StartDiscovery ueDevice [] dst role w = Inr w"
| "StartDiscovery ueDevice (it # appCodes) [] role w = Inl IteratorPastEnd"
| "StartDiscovery ueDevice (it # appCodes) (d # dst) role w =
     StartDiscovery ueDevice appCodes dst role (StartDiscoveryApp ueDevice it d role w)"

subsection \<open>The selection algorithm handed to the remote UEs\<close>





section \<open>Direct links and the ProSe controller\<close>

text \<open>
  The classes \<^verbatim>\<open>NrSlUeProseDirectLink\<close> and \<^verbatim>\<open>NrSlUeProse\<close> (the direct-link state machine
  and the per-endpoint controller) are not among the sources at hand: only the helper that
  schedules \<^verbatim>\<open>AddDirectLinkConnection\<close> and the examples that set the timer attribute
  \<^verbatim>\<open>T5080\<close> are.  The definitions of this section follow the specification's sections 3,
  4.3 and 4.4 instead.
\<close>

type_synonym EndpointId = "32 word"

type_synonym Address = "32 word"

text \<open>Modelled from the spec: the role of a \<open>DirectLink\<close>, fixed at creation
  (\<^verbatim>\<open>NrSlUeProseDirectLink\<close> is missing).\<close>

datatype LinkRole = Initiating | Target

text \<open>Modelled from the spec: the states of the \<open>DirectLinkStateMachine\<close>
  (\<^verbatim>\<open>NrSlUeProseDirectLink\<close> is missing).\<close>

datatype LinkState = Idle | AwaitingResponse | Established

text \<open>Modelled from the spec: the three establishment messages; the request carries
  \<open>{localId, peerId, localAddress, relayServiceCode?}\<close>, the accept \<open>{localAddress}\<close>
  (the message headers are missing).\<close>

datatype Message =
    EstablishmentRequest EndpointId EndpointId Address "32 word option"
  | Accept Address
  | Reject

text \<open>Modelled from the spec: what a link asks of its collaborators: sending a message
  to a peer, notifying the controller of establishment or of failure, and triggering the
  external relay-path configuration for a service code (the SAPs between
  \<^verbatim>\<open>NrSlUeProseDirectLink\<close> and \<^verbatim>\<open>NrSlUeProse\<close> are missing).\<close>

datatype Action =
    Send EndpointId Message
  | NotifyEstablished EndpointId
  | NotifyFailure EndpointId
  | ConfigureRelayPath "32 word"

text \<open>Modelled from the spec: the \<open>DirectLink\<close> of the data model
  (\<^verbatim>\<open>NrSlUeProseDirectLink\<close> is missing).  The retransmission timer, when armed, holds the
  simulated time at which it expires.  The spec names no transition that changes
  \<open>retransmitCount\<close>.\<close>

record DirectLink =
  localId :: EndpointId
  peerId :: EndpointId
  role :: LinkRole
  state :: LinkState
  relayServiceCode :: "32 word option"
  localAddress :: Address
  peerAddress :: "Address option"
  retransmitTimer :: "Time option"
  retransmitCount :: "32 word"

text \<open>Modelled from the spec: the Establishment-Request a link sends,
  \<open>{localId, peerId, localAddress, relayServiceCode?}\<close> (\<^verbatim>\<open>NrSlUeProseDirectLink\<close> is
  missing).\<close>

definition request_of :: "DirectLink \<Rightarrow> Message" where
  "request_of l = EstablishmentRequest (localId l) (peerId l) (localAddress l) (relayServiceCode l)"

text \<open>Modelled from the spec: "if \<open>relayServiceCode\<close> was set, additionally trigger
  external relay-path configuration" (\<^verbatim>\<open>NrSlUeProse\<close> is missing).\<close>

definition relay_trigger :: "32 word option \<Rightarrow> Action list" where
  "relay_trigger c = (case c of None \<Rightarrow> [] | Some sc \<Rightarrow> [ConfigureRelayPath sc])"

text \<open>Modelled from the spec: initiating side, transition 1 (\<^verbatim>\<open>NrSlUeProseDirectLink\<close> is
  missing): \<open>start()\<close> takes the link from Idle to AwaitingResponse, sends the
  Establishment-Request and arms T5080.\<close>

definition start :: "Time \<Rightarrow> Time \<Rightarrow> DirectLink \<Rightarrow> DirectLink \<times> Action list" where
  "start T5080 clock l =
     (if role l = Initiating \<and> state l = Idle
      then (l\<lparr>state := AwaitingResponse, retransmitTimer := Some (clock + T5080)\<rparr>,
            [Send (peerId l) (request_of l)])
      else (l, []))"

text \<open>Modelled from the spec: initiating side, transition 2 (\<^verbatim>\<open>NrSlUeProseDirectLink\<close> is
  missing): on timer expiry while in AwaitingResponse the identical request is resent and
  T5080 is rearmed.  A timer that fires in any other state is spent.\<close>

definition on_timer_expiry :: "Time \<Rightarrow> Time \<Rightarrow> DirectLink \<Rightarrow> DirectLink \<times> Action list" where
  "on_timer_expiry T5080 clock l =
     (if role l = Initiating \<and> state l = AwaitingResponse
      then (l\<lparr>retransmitTimer := Some (clock + T5080)\<rparr>, [Send (peerId l) (request_of l)])
      else (l\<lparr>retransmitTimer := None\<rparr>, []))"

text \<open>Modelled from the spec: initiating side, transition 3 (\<^verbatim>\<open>NrSlUeProseDirectLink\<close> is
  missing): on Accept while in AwaitingResponse the timer is cancelled, the peer address
  recorded, the state becomes Established and the controller is notified, with the
  relay-path trigger when a relay service code was set.\<close>

definition on_accept :: "Address \<Rightarrow> DirectLink \<Rightarrow> DirectLink \<times> Action list" where
  "on_accept a l =
     (if role l = Initiating \<and> state l = AwaitingResponse
      then (l\<lparr>retransmitTimer := None, peerAddress := Some a, state := Established\<rparr>,
            NotifyEstablished (peerId l) # relay_trigger (relayServiceCode l))
      else (l, []))"

text \<open>Modelled from the spec: initiating side, transition 4 (\<^verbatim>\<open>NrSlUeProseDirectLink\<close> is
  missing): on Reject while in AwaitingResponse the timer is cancelled, the link is
  returned to Idle and the controller is notified of the failure.\<close>

definition on_reject :: "DirectLink \<Rightarrow> DirectLink \<times> Action list" where
  "on_reject l =
     (if role l = Initiating \<and> state l = AwaitingResponse
      then (l\<lparr>retransmitTimer := None, state := Idle\<rparr>, [NotifyFailure (peerId l)])
      else (l, []))"

text \<open>Modelled from the spec: target side (\<^verbatim>\<open>NrSlUeProseDirectLink\<close> is missing): on an
  Establishment-Request while Idle, an acceptable request is answered by Accept, the
  state becomes Established and the controller is notified (with the relay-path trigger
  if the request carried a service code); otherwise Reject is sent and the link remains
  Idle.  Whether the request is acceptable is decided by the controller.\<close>

definition on_request :: "bool \<Rightarrow> 32 word option \<Rightarrow> DirectLink \<Rightarrow> DirectLink \<times> Action list" where
  "on_request acceptable code l =
     (if role l = Target \<and> state l = Idle
      then (if acceptable
            then (l\<lparr>state := Established\<rparr>,
                  Send (peerId l) (Accept (localAddress l)) # NotifyEstablished (peerId l)
                    # relay_trigger code)
            else (l, [Send (peerId l) Reject]))
      else (l, []))"

text \<open>Modelled from the spec: the operations and received messages that can reach a link
  (\<^verbatim>\<open>NrSlUeProseDirectLink\<close> is missing), and the handler invoked at simulated time
  \<open>clock\<close>.  A timer that is not armed does not fire.\<close>

datatype Event =
    Start
  | TimerExpiry
  | RecvAccept Address
  | RecvReject
  | RecvRequest bool "32 word option"

fun handle :: "Time \<Rightarrow> Time \<Rightarrow> Event \<Rightarrow> DirectLink \<Rightarrow> DirectLink \<times> Action list" where
  "handle T5080 clock Start l = start T5080 clock l"
| "handle T5080 clock TimerExpiry l =
     (case retransmitTimer l of None \<Rightarrow> (l, []) | Some e \<Rightarrow> on_timer_expiry T5080 clock l)"
| "handle T5080 clock (RecvAccept a) l = on_accept a l"
| "handle T5080 clock RecvReject l = on_reject l"
| "handle T5080 clock (RecvRequest acceptable code) l = on_request acceptable code l"

text \<open>Modelled from the spec: simulated time advancing to \<open>until\<close> while no message
  reaches the link (the event queue of the simulator is missing): every expiry of the
  armed timer that is due is handled, in order, and what is sent is listed with its time.
  The result is \<open>None\<close> when a timer is re-armed for a time that is not later than its
  expiry, since simulated time then never advances.\<close>

function advance :: "Time \<Rightarrow> Time \<Rightarrow> DirectLink \<Rightarrow> (DirectLink \<times> (Time \<times> Action) list) option" where
  "advance T5080 until l =
     (case retransmitTimer l of
        None \<Rightarrow> Some (l, [])
      | Some e \<Rightarrow>
          if until < e then Some (l, [])
          else (case retransmitTimer (fst (on_timer_expiry T5080 e l)) of
                  None \<Rightarrow> Some (fst (on_timer_expiry T5080 e l),
                                 map (Pair e) (snd (on_timer_expiry T5080 e l)))
                | Some e' \<Rightarrow>
                    if e' \<le> e then None
                    else map_option
                           (\<lambda>(l', rest). (l', map (Pair e) (snd (on_timer_expiry T5080 e l)) @ rest))
                           (advance T5080 until (fst (on_timer_expiry T5080 e l)))))"
  by pat_completeness auto
termination
  by (relation "measure (\<lambda>(T5080, until, l).
        case retransmitTimer l of None \<Rightarrow> 0 | Some e \<Rightarrow> nat (until - e + 1))") auto

declare advance.simps [simp del]

text \<open>Modelled from the spec: the part of the \<open>ProseController\<close> that owns the direct
  links of an endpoint, one per peer (\<^verbatim>\<open>NrSlUeProse\<close> is missing).\<close>

record ProseController =
  endpointId :: EndpointId
  links :: "EndpointId \<rightharpoonup> DirectLink"

text \<open>Modelled from the spec: a freshly created \<open>DirectLink\<close>, in state Idle, its role
  given by \<open>isInitiating\<close> (\<^verbatim>\<open>NrSlUeProse\<close> is missing).\<close>

definition new_link ::
  "EndpointId \<Rightarrow> EndpointId \<Rightarrow> Address \<Rightarrow> bool \<Rightarrow> 32 word option \<Rightarrow> DirectLink" where
  "new_link self peer addr isInitiating code =
     \<lparr>localId = self, peerId = peer, role = (if isInitiating then Initiating else Target),
      state = Idle, relayServiceCode = code, localAddress = addr, peerAddress = None,
      retransmitTimer = None, retransmitCount = 0\<rparr>"

text \<open>Modelled from the spec: \<open>addDirectLinkConnection (peerId, localAddress, isInitiating,
  relayServiceCode, qosParams)\<close> (\<^verbatim>\<open>NrSlUeProse::AddDirectLinkConnection\<close> is missing): it
  creates a \<open>DirectLink\<close> if none exists for the peer and, if \<open>isInitiating\<close>, immediately
  calls \<open>start()\<close> on it; it signals AlreadyExists if a link to that peer exists.  The
  result is the controller afterwards and either the error or what was sent.\<close>

definition addDirectLinkConnection ::
  "Time \<Rightarrow> Time \<Rightarrow> EndpointId \<Rightarrow> Address \<Rightarrow> bool \<Rightarrow> 32 word option \<Rightarrow> 'q \<Rightarrow> ProseController
    \<Rightarrow> ProseController \<times> (error + Action list)" where
  "addDirectLinkConnection T5080 clock peer addr isInitiating code qosParams c =
     (case links c peer of
        Some l \<Rightarrow> (c, Inl AlreadyExists)
      | None \<Rightarrow>
          (if isInitiating
           then (c\<lparr>links := (links c)(peer \<mapsto>
                     fst (start T5080 clock (new_link (endpointId c) peer addr isInitiating code)))\<rparr>,
                 Inr (snd (start T5080 clock (new_link (endpointId c) peer addr isInitiating code))))
           else (c\<lparr>links := (links c)(peer \<mapsto> new_link (endpointId c) peer addr isInitiating code)\<rparr>,
                 Inr [])))"

section \<open>Properties of the comparison of doubles\<close>

lemma dgt_irrefl: "\<not> dgt a a"
  by (cases a) auto

lemma dgt_trans: "dgt a b \<Longrightarrow> dgt b c \<Longrightarrow> dgt a c"
  by (cases a; cases b; cases c) auto

lemma dgt_semilinear: "dgt z x \<Longrightarrow> \<not> dgt y x \<Longrightarrow> dgt y b \<Longrightarrow> dgt z y"
  by (cases z; cases x; cases y; cases b) auto

section \<open>The loop of the maximum-RSRP algorithm\<close>

text \<open>Assigning the four members one by one makes \<^verbatim>\<open>relay\<close> a copy of the candidate.\<close>

lemma MaxRsrp_loop_take:
  "dgt (rsrp x) (rsrp b) \<Longrightarrow> eligible x \<Longrightarrow>
     MaxRsrp_loop (x # xs) (b, f) = MaxRsrp_loop xs (x, True)"
  by (cases b; cases x) simp

lemma MaxRsrp_loop_skip:
  "\<not> (dgt (rsrp x) (rsrp b) \<and> eligible x) \<Longrightarrow>
     MaxRsrp_loop (x # xs) (b, f) = MaxRsrp_loop xs (b, f)"
  by auto

text \<open>
  What the loop leaves behind, started from any running best \<open>b\<close>: either nothing was
  taken, and then no eligible candidate exceeds \<open>b\<close>; or the running best is the candidate
  at some position \<open>i\<close>, which is eligible, exceeds \<open>b\<close>, is exceeded by no eligible
  candidate, and strictly exceeds every earlier eligible candidate above \<open>b\<close>.
\<close>

lemma MaxRsrp_loop_char:
  "MaxRsrp_loop rs (b, f) = (r, f') \<Longrightarrow>
     (r = b \<and> f' = f \<and> (\<forall>c\<in>set rs. eligible c \<longrightarrow> \<not> dgt (rsrp c) (rsrp b)))
   \<or> (f' \<and> (\<exists>i<length rs. r = rs ! i \<and> eligible (rs ! i) \<and> dgt (rsrp (rs ! i)) (rsrp b)
          \<and> (\<forall>c\<in>set rs. eligible c \<longrightarrow> \<not> dgt (rsrp c) (rsrp (rs ! i)))
          \<and> (\<forall>j<i. eligible (rs ! j) \<and> dgt (rsrp (rs ! j)) (rsrp b)
                 \<longrightarrow> dgt (rsrp (rs ! i)) (rsrp (rs ! j)))))"
proof (induction rs arbitrary: b f)
  case Nil
  then show ?case by simp
next
  case (Cons x xs)
  show ?case
  proof (cases "dgt (rsrp x) (rsrp b) \<and> eligible x")
    case True
    with Cons.prems have run: "MaxRsrp_loop xs (x, True) = (r, f')"
      by (simp only: MaxRsrp_loop_take)
    from Cons.IH[OF run] show ?thesis
    proof
      assume a: "r = x \<and> f' = True \<and> (\<forall>c\<in>set xs. eligible c \<longrightarrow> \<not> dgt (rsrp c) (rsrp x))"
      have "f' \<and> (\<exists>i<length (x # xs). r = (x # xs) ! i \<and> eligible ((x # xs) ! i)
          \<and> dgt (rsrp ((x # xs) ! i)) (rsrp b)
          \<and> (\<forall>c\<in>set (x # xs). eligible c \<longrightarrow> \<not> dgt (rsrp c) (rsrp ((x # xs) ! i)))
          \<and> (\<forall>j<i. eligible ((x # xs) ! j) \<and> dgt (rsrp ((x # xs) ! j)) (rsrp b)
                 \<longrightarrow> dgt (rsrp ((x # xs) ! i)) (rsrp ((x # xs) ! j))))"
        using a True by (auto intro!: exI[of _ 0] simp: dgt_irrefl)
      then show ?thesis ..
    next
      assume "f' \<and> (\<exists>i<length xs. r = xs ! i \<and> eligible (xs ! i) \<and> dgt (rsrp (xs ! i)) (rsrp x)
          \<and> (\<forall>c\<in>set xs. eligible c \<longrightarrow> \<not> dgt (rsrp c) (rsrp (xs ! i)))
          \<and> (\<forall>j<i. eligible (xs ! j) \<and> dgt (rsrp (xs ! j)) (rsrp x)
                 \<longrightarrow> dgt (rsrp (xs ! i)) (rsrp (xs ! j))))"
      then obtain i where f': "f'" and i: "i < length xs" "r = xs ! i" "eligible (xs ! i)"
        "dgt (rsrp (xs ! i)) (rsrp x)"
        "\<forall>c\<in>set xs. eligible c \<longrightarrow> \<not> dgt (rsrp c) (rsrp (xs ! i))"
        "\<forall>j<i. eligible (xs ! j) \<and> dgt (rsrp (xs ! j)) (rsrp x)
                 \<longrightarrow> dgt (rsrp (xs ! i)) (rsrp (xs ! j))"
        by blast
      have gb: "dgt (rsrp (xs ! i)) (rsrp b)"
        using i(4) True dgt_trans by blast
      have nx: "\<not> dgt (rsrp x) (rsrp (xs ! i))"
        using i(4) dgt_trans dgt_irrefl by blast
      have earlier: "eligible ((x # xs) ! j) \<and> dgt (rsrp ((x # xs) ! j)) (rsrp b)
                 \<longrightarrow> dgt (rsrp (xs ! i)) (rsrp ((x # xs) ! j))" if "j < Suc i" for j
      proof (cases j)
        case 0
        then show ?thesis using i(4) by simp
      next
        case (Suc k)
        with that have k: "k < i" by simp
        show ?thesis
        proof (cases "dgt (rsrp (xs ! k)) (rsrp x)")
          case True
          then show ?thesis using i(6) k Suc by simp
        next
          case False
          then show ?thesis using Suc dgt_semilinear[OF i(4) False] by auto
        qed
      qed
      have "f' \<and> (\<exists>i<length (x # xs). r = (x # xs) ! i \<and> eligible ((x # xs) ! i)
          \<and> dgt (rsrp ((x # xs) ! i)) (rsrp b)
          \<and> (\<forall>c\<in>set (x # xs). eligible c \<longrightarrow> \<not> dgt (rsrp c) (rsrp ((x # xs) ! i)))
          \<and> (\<forall>j<i. eligible ((x # xs) ! j) \<and> dgt (rsrp ((x # xs) ! j)) (rsrp b)
                 \<longrightarrow> dgt (rsrp ((x # xs) ! i)) (rsrp ((x # xs) ! j))))"
        apply (rule conjI[OF f'])
        apply (rule exI[of _ "Suc i"])
        using i gb nx earlier by simp
      then show ?thesis ..
    qed
  next
    case False
    from Cons.prems have run: "MaxRsrp_loop xs (b, f) = (r, f')"
      unfolding MaxRsrp_loop_skip[OF False] .
    from Cons.IH[OF run] show ?thesis
    proof
      assume "r = b \<and> f' = f \<and> (\<forall>c\<in>set xs. eligible c \<longrightarrow> \<not> dgt (rsrp c) (rsrp b))"
      then show ?thesis using False by auto
    next
      assume "f' \<and> (\<exists>i<length xs. r = xs ! i \<and> eligible (xs ! i) \<and> dgt (rsrp (xs ! i)) (rsrp b)
          \<and> (\<forall>c\<in>set xs. eligible c \<longrightarrow> \<not> dgt (rsrp c) (rsrp (xs ! i)))
          \<and> (\<forall>j<i. eligible (xs ! j) \<and> dgt (rsrp (xs ! j)) (rsrp b)
                 \<longrightarrow> dgt (rsrp (xs ! i)) (rsrp (xs ! j))))"
      then obtain i where f': "f'" and i: "i < length xs" "r = xs ! i" "eligible (xs ! i)"
        "dgt (rsrp (xs ! i)) (rsrp b)"
        "\<forall>c\<in>set xs. eligible c \<longrightarrow> \<not> dgt (rsrp c) (rsrp (xs ! i))"
        "\<forall>j<i. eligible (xs ! j) \<and> dgt (rsrp (xs ! j)) (rsrp b)
                 \<longrightarrow> dgt (rsrp (xs ! i)) (rsrp (xs ! j))"
        by blast
      have nx: "eligible x \<longrightarrow> \<not> dgt (rsrp x) (rsrp (xs ! i))"
        using i(4) False dgt_trans by blast
      have earlier: "eligible ((x # xs) ! j) \<and> dgt (rsrp ((x # xs) ! j)) (rsrp b)
                 \<longrightarrow> dgt (rsrp (xs ! i)) (rsrp ((x # xs) ! j))" if "j < Suc i" for j
      proof (cases j)
        case 0
        then show ?thesis using False by auto
      next
        case (Suc k)
        with that have k: "k < i" by simp
        then show ?thesis using i(6) Suc by simp
      qed
      have "f' \<and> (\<exists>i<length (x # xs). r = (x # xs) ! i \<and> eligible ((x # xs) ! i)
          \<and> dgt (rsrp ((x # xs) ! i)) (rsrp b)
          \<and> (\<forall>c\<in>set (x # xs). eligible c \<longrightarrow> \<not> dgt (rsrp c) (rsrp ((x # xs) ! i)))
          \<and> (\<forall>j<i. eligible ((x # xs) ! j) \<and> dgt (rsrp ((x # xs) ! j)) (rsrp b)
                 \<longrightarrow> dgt (rsrp ((x # xs) ! i)) (rsrp ((x # xs) ! j))))"
        apply (rule conjI[OF f'])
        apply (rule exI[of _ "Suc i"])
        using i nx earlier by simp
      then show ?thesis ..
    qed
  qed
qed

lemma MaxRsrp_loop_pair:
  "MaxRsrp_loop rs (dflt, False) = (SelectRelay_MaxRsrp dflt rs, MaxRsrp_found dflt rs)"
  by (simp add: SelectRelay_MaxRsrp_def MaxRsrp_found_def)

section \<open>Claims about the relay selection algorithms\<close>

text \<open>
  What the maximum-RSRP algorithm returns, for every candidate list: when some eligible
  candidate has an RSRP strictly greater than the RSRP of a default-constructed
  \<^verbatim>\<open>RelayInfo\<close>, a candidate of the list that is eligible, whose RSRP no eligible
  candidate exceeds, and which strictly exceeds every such candidate seen before it (so
  of several candidates with the greatest RSRP the earliest is kept); otherwise the
  default-constructed \<^verbatim>\<open>RelayInfo\<close>.
\<close>

lemma SelectRelay_MaxRsrp_first_maximum:
  "((\<exists>c\<in>set rs. eligible c \<and> dgt (rsrp c) (rsrp dflt)) \<longrightarrow>
      (\<exists>i<length rs. SelectRelay_MaxRsrp dflt rs = rs ! i
          \<and> eligible (rs ! i) \<and> dgt (rsrp (rs ! i)) (rsrp dflt)
          \<and> (\<forall>c\<in>set rs. eligible c \<longrightarrow> \<not> dgt (rsrp c) (rsrp (rs ! i)))
          \<and> (\<forall>j<i. eligible (rs ! j) \<and> dgt (rsrp (rs ! j)) (rsrp dflt)
                 \<longrightarrow> dgt (rsrp (rs ! i)) (rsrp (rs ! j)))))
   \<and> (\<not> (\<exists>c\<in>set rs. eligible c \<and> dgt (rsrp c) (rsrp dflt)) \<longrightarrow>
        SelectRelay_MaxRsrp dflt rs = dflt)
   \<and> (dgt (Finite (- 70)) (rsrp dflt) \<longrightarrow>
        l2Id (SelectRelay_MaxRsrp dflt
          [\<lparr>l2Id = 1, relayCode = sc, rsrp = Finite (- 80), eligible = True\<rparr>,
           \<lparr>l2Id = 2, relayCode = sc, rsrp = Finite (- 70), eligible = True\<rparr>,
           \<lparr>l2Id = 3, relayCode = sc, rsrp = Finite (- 60), eligible = False\<rparr>]) = 2)"
proof (intro conjI impI)
  assume ex: "\<exists>c\<in>set rs. eligible c \<and> dgt (rsrp c) (rsrp dflt)"
  from MaxRsrp_loop_char[OF MaxRsrp_loop_pair[of rs dflt]] ex
  show "\<exists>i<length rs. SelectRelay_MaxRsrp dflt rs = rs ! i
          \<and> eligible (rs ! i) \<and> dgt (rsrp (rs ! i)) (rsrp dflt)
          \<and> (\<forall>c\<in>set rs. eligible c \<longrightarrow> \<not> dgt (rsrp c) (rsrp (rs ! i)))
          \<and> (\<forall>j<i. eligible (rs ! j) \<and> dgt (rsrp (rs ! j)) (rsrp dflt)
                 \<longrightarrow> dgt (rsrp (rs ! i)) (rsrp (rs ! j)))"
    by blast
next
  assume no: "\<not> (\<exists>c\<in>set rs. eligible c \<and> dgt (rsrp c) (rsrp dflt))"
  from MaxRsrp_loop_char[OF MaxRsrp_loop_pair[of rs dflt]] no
  show "SelectRelay_MaxRsrp dflt rs = dflt"
    by (metis nth_mem)
next
  assume a: "dgt (Finite (- 70)) (rsrp dflt)"
  show "l2Id (SelectRelay_MaxRsrp dflt
          [\<lparr>l2Id = 1, relayCode = sc, rsrp = Finite (- 80), eligible = True\<rparr>,
           \<lparr>l2Id = 2, relayCode = sc, rsrp = Finite (- 70), eligible = True\<rparr>,
           \<lparr>l2Id = 3, relayCode = sc, rsrp = Finite (- 60), eligible = False\<rparr>]) = 2"
    using a by (simp add: SelectRelay_MaxRsrp_def)
qed

text \<open>
  Claim C1 does not hold of the code.  The claim, like the documentation of the class
  ("the RelayInfo with the maximum RSRP value, considering only those that are set to
  eligible, will be returned"), promises the eligible candidate with the greatest RSRP.
  But the loop takes a candidate only if its RSRP is strictly greater than that of the
  running best, which starts as the default-constructed \<^verbatim>\<open>RelayInfo\<close>, and the local
  \<^verbatim>\<open>found\<close> is not consulted.  An eligible candidate with an RSRP of minus infinity is
  strictly greater than nothing: on each of the two lists below, which hold one such
  candidate, the algorithm returns the default-constructed \<^verbatim>\<open>RelayInfo\<close>, whatever it is,
  and \<^verbatim>\<open>found\<close> stays false, so that "no eligible relay was found" is logged.
\<close>

theorem SelectRelay_MaxRsrp_misses_eligible:
  "SelectRelay_MaxRsrp dflt [\<lparr>l2Id = 1, relayCode = 5, rsrp = NegInf, eligible = True\<rparr>] = dflt
   \<and> MaxRsrp_found dflt [\<lparr>l2Id = 1, relayCode = 5, rsrp = NegInf, eligible = True\<rparr>] = False
   \<and> SelectRelay_MaxRsrp dflt [\<lparr>l2Id = 2, relayCode = 5, rsrp = NegInf, eligible = True\<rparr>] = dflt
   \<and> MaxRsrp_found dflt [\<lparr>l2Id = 2, relayCode = 5, rsrp = NegInf, eligible = True\<rparr>] = False
   \<and> \<lparr>l2Id = 1, relayCode = 5, rsrp = NegInf, eligible = True\<rparr>
       \<noteq> \<lparr>l2Id = 2, relayCode = 5, rsrp = NegInf, eligible = True\<rparr>"
  by (simp add: SelectRelay_MaxRsrp_def MaxRsrp_found_def)

text \<open>
  Claim C2.  The loop starts from the default-constructed \<^verbatim>\<open>RelayInfo\<close> and replaces the
  running best only by an eligible candidate whose RSRP is strictly greater than the
  running best's.  Hence a candidate that is returned as found is eligible and strictly
  exceeds the default's RSRP; and when no eligible candidate strictly exceeds the default's
  RSRP, the default-constructed \<^verbatim>\<open>RelayInfo\<close> is returned and nothing is found, whether
  or not eligible candidates exist.
\<close>

theorem SelectRelay_MaxRsrp_default_threshold:
  "MaxRsrp_loop (x # xs) (b, f)
      = MaxRsrp_loop xs (if dgt (rsrp x) (rsrp b) \<and> eligible x then (x, True) else (b, f))
   \<and> (MaxRsrp_found dflt rs \<longrightarrow>
        (\<exists>c\<in>set rs. SelectRelay_MaxRsrp dflt rs = c \<and> eligible c \<and> dgt (rsrp c) (rsrp dflt)))
   \<and> (\<not> MaxRsrp_found dflt rs \<longrightarrow> SelectRelay_MaxRsrp dflt rs = dflt)
   \<and> ((\<forall>c\<in>set rs. eligible c \<longrightarrow> \<not> dgt (rsrp c) (rsrp dflt)) \<longrightarrow>
        SelectRelay_MaxRsrp dflt rs = dflt \<and> \<not> MaxRsrp_found dflt rs)"
proof (intro conjI impI)
  show "MaxRsrp_loop (x # xs) (b, f)
      = MaxRsrp_loop xs (if dgt (rsrp x) (rsrp b) \<and> eligible x then (x, True) else (b, f))"
    using MaxRsrp_loop_take[of x b xs f] MaxRsrp_loop_skip[of x b xs f] by presburger
next
  assume "MaxRsrp_found dflt rs"
  with MaxRsrp_loop_char[OF MaxRsrp_loop_pair[of rs dflt]]
  show "\<exists>c\<in>set rs. SelectRelay_MaxRsrp dflt rs = c \<and> eligible c \<and> dgt (rsrp c) (rsrp dflt)"
    by (metis nth_mem)
next
  assume "\<not> MaxRsrp_found dflt rs"
  with MaxRsrp_loop_char[OF MaxRsrp_loop_pair[of rs dflt]]
  show "SelectRelay_MaxRsrp dflt rs = dflt"
    by blast
next
  assume a: "\<forall>c\<in>set rs. eligible c \<longrightarrow> \<not> dgt (rsrp c) (rsrp dflt)"
  with MaxRsrp_loop_char[OF MaxRsrp_loop_pair[of rs dflt]]
  show "SelectRelay_MaxRsrp dflt rs = dflt"
    by (metis nth_mem)
next
  assume a: "\<forall>c\<in>set rs. eligible c \<longrightarrow> \<not> dgt (rsrp c) (rsrp dflt)"
  with MaxRsrp_loop_char[OF MaxRsrp_loop_pair[of rs dflt]]
  show "\<not> MaxRsrp_found dflt rs"
    by (metis nth_mem)
qed

text \<open>
  The theorem at two inputs: with a default RSRP of minus infinity the one eligible
  candidate is found; with a default RSRP of zero the two eligible candidates at -80 and
  -70 do not exceed it, and the default is returned.
\<close>

theorem SelectRelay_MaxRsrp_default_threshold_witness:
  "MaxRsrp_found \<lparr>l2Id = 0, relayCode = 0, rsrp = NegInf, eligible = False\<rparr>
      [\<lparr>l2Id = 1, relayCode = 5, rsrp = Finite (- 80), eligible = True\<rparr>]
   \<and> SelectRelay_MaxRsrp \<lparr>l2Id = 0, relayCode = 0, rsrp = NegInf, eligible = False\<rparr>
      [\<lparr>l2Id = 1, relayCode = 5, rsrp = Finite (- 80), eligible = True\<rparr>]
      = \<lparr>l2Id = 1, relayCode = 5, rsrp = Finite (- 80), eligible = True\<rparr>
   \<and> list_all (\<lambda>c. eligible c \<and> \<not> dgt (rsrp c) (rsrp \<lparr>l2Id = 0, relayCode = 0, rsrp = Finite 0, eligible = False\<rparr>))
        [\<lparr>l2Id = 1, relayCode = 5, rsrp = Finite (- 80), eligible = True\<rparr>,
         \<lparr>l2Id = 2, relayCode = 5, rsrp = Finite (- 70), eligible = True\<rparr>]
   \<and> SelectRelay_MaxRsrp \<lparr>l2Id = 0, relayCode = 0, rsrp = Finite 0, eligible = False\<rparr>
        [\<lparr>l2Id = 1, relayCode = 5, rsrp = Finite (- 80), eligible = True\<rparr>,
         \<lparr>l2Id = 2, relayCode = 5, rsrp = Finite (- 70), eligible = True\<rparr>]
      = \<lparr>l2Id = 0, relayCode = 0, rsrp = Finite 0, eligible = False\<rparr>
   \<and> \<not> MaxRsrp_found \<lparr>l2Id = 0, relayCode = 0, rsrp = Finite 0, eligible = False\<rparr>
        [\<lparr>l2Id = 1, relayCode = 5, rsrp = Finite (- 80), eligible = True\<rparr>,
         \<lparr>l2Id = 2, relayCode = 5, rsrp = Finite (- 70), eligible = True\<rparr>]"
  using SelectRelay_MaxRsrp_default_threshold
          [of _ _ _ _ "\<lparr>l2Id = 0, relayCode = 0, rsrp = NegInf, eligible = False\<rparr>"
              "[\<lparr>l2Id = 1, relayCode = 5, rsrp = Finite (- 80), eligible = True\<rparr>]"]
        SelectRelay_MaxRsrp_default_threshold
          [of _ _ _ _ "\<lparr>l2Id = 0, relayCode = 0, rsrp = Finite 0, eligible = False\<rparr>"
              "[\<lparr>l2Id = 1, relayCode = 5, rsrp = Finite (- 80), eligible = True\<rparr>,
                \<lparr>l2Id = 2, relayCode = 5, rsrp = Finite (- 70), eligible = True\<rparr>]"]
  by (simp add: SelectRelay_MaxRsrp_def MaxRsrp_found_def)

lemma MaxRsrp_default_iff_not_found:
  "(SelectRelay_MaxRsrp dflt rs = dflt) = (\<not> MaxRsrp_found dflt rs)"
  using MaxRsrp_loop_char[OF MaxRsrp_loop_pair[of rs dflt]] dgt_irrefl[of "rsrp dflt"]
  by metis

text \<open>
  Claim C3 (as amended).  Every algorithm returns a plain \<^verbatim>\<open>RelayInfo\<close>, and "no
  selection" is the default-constructed \<^verbatim>\<open>RelayInfo\<close>.  The maximum-RSRP algorithm
  returns the default exactly when it found no candidate.  The first-available and the
  random algorithm return the default exactly when the list is empty or the candidate
  they return has itself the default's member values; so for them comparing with the
  default decides whether a selection was made when no candidate of the list equals the
  default-constructed \<^verbatim>\<open>RelayInfo\<close>.
\<close>

theorem SelectRelay_no_selection_is_default:
  "((SelectRelay_FirstAvailable dflt rs = dflt) = (rs = [] \<or> rs ! 0 = dflt))
   \<and> ((fst (SelectRelay_Random GetInteger dflt this rs) = Inr dflt)
        = (rs = [] \<or> (fst (GetInteger (m_rand this) 0 (length rs - 1)) < length rs
                      \<and> rs ! fst (GetInteger (m_rand this) 0 (length rs - 1)) = dflt)))
   \<and> ((SelectRelay_MaxRsrp dflt rs = dflt) = (\<not> MaxRsrp_found dflt rs))
   \<and> (dflt \<notin> set rs \<longrightarrow>
        ((SelectRelay_FirstAvailable dflt rs = dflt) = (rs = []))
        \<and> ((fst (SelectRelay_Random GetInteger dflt this rs) = Inr dflt) = (rs = [])))"
proof (intro conjI impI)
  show "(SelectRelay_FirstAvailable dflt rs = dflt) = (rs = [] \<or> rs ! 0 = dflt)"
    by (simp add: SelectRelay_FirstAvailable_def)
  show r: "(fst (SelectRelay_Random GetInteger dflt this rs) = Inr dflt)
        = (rs = [] \<or> (fst (GetInteger (m_rand this) 0 (length rs - 1)) < length rs
                      \<and> rs ! fst (GetInteger (m_rand this) 0 (length rs - 1)) = dflt))"
    by (simp add: SelectRelay_Random_def case_prod_beta)
  show "(SelectRelay_MaxRsrp dflt rs = dflt) = (\<not> MaxRsrp_found dflt rs)"
    by (rule MaxRsrp_default_iff_not_found)
  assume n: "dflt \<notin> set rs"
  show "(SelectRelay_FirstAvailable dflt rs = dflt) = (rs = [])"
    using n by (cases rs) (auto simp add: SelectRelay_FirstAvailable_def)
  show "(fst (SelectRelay_Random GetInteger dflt this rs) = Inr dflt) = (rs = [])"
    unfolding r using n nth_mem by blast
qed

text \<open>The theorem at a list whose only candidate differs from the default.\<close>

theorem SelectRelay_no_selection_is_default_witness:
  "\<lparr>l2Id = 0, relayCode = 0, rsrp = NegInf, eligible = False\<rparr>
      \<notin> set [\<lparr>l2Id = 1, relayCode = 5, rsrp = Finite (- 80), eligible = True\<rparr>]
   \<and> SelectRelay_FirstAvailable \<lparr>l2Id = 0, relayCode = 0, rsrp = NegInf, eligible = False\<rparr>
        [\<lparr>l2Id = 1, relayCode = 5, rsrp = Finite (- 80), eligible = True\<rparr>]
      \<noteq> \<lparr>l2Id = 0, relayCode = 0, rsrp = NegInf, eligible = False\<rparr>
   \<and> fst (SelectRelay_Random (\<lambda>g lo hi. (lo + g mod (hi - lo + 1), Suc g))
        \<lparr>l2Id = 0, relayCode = 0, rsrp = NegInf, eligible = False\<rparr> \<lparr>m_rand = 7\<rparr>
        [\<lparr>l2Id = 1, relayCode = 5, rsrp = Finite (- 80), eligible = True\<rparr>])
      \<noteq> Inr \<lparr>l2Id = 0, relayCode = 0, rsrp = NegInf, eligible = False\<rparr>"
  using SelectRelay_no_selection_is_default
          [of "\<lparr>l2Id = 0, relayCode = 0, rsrp = NegInf, eligible = False\<rparr>"
              "[\<lparr>l2Id = 1, relayCode = 5, rsrp = Finite (- 80), eligible = True\<rparr>]"
              "\<lambda>g lo hi. (lo + g mod (hi - lo + 1), Suc g)" "\<lparr>m_rand = 7\<rparr>"]
  by simp

text \<open>
  Claim C3 as stated fails: whatever the default-constructed \<^verbatim>\<open>RelayInfo\<close> is, the
  first-available algorithm returns for the list holding one candidate with the
  default's member values exactly what it returns for the empty list.
\<close>

theorem SelectRelay_no_selection_counterexample:
  "\<not> (\<exists>dflt. \<forall>rs. rs \<noteq> [] \<longrightarrow>
         SelectRelay_FirstAvailable dflt rs \<noteq> SelectRelay_FirstAvailable dflt [])"
proof
  assume "\<exists>dflt. \<forall>rs. rs \<noteq> [] \<longrightarrow>
         SelectRelay_FirstAvailable dflt rs \<noteq> SelectRelay_FirstAvailable dflt []"
  then obtain dflt where "\<forall>rs. rs \<noteq> [] \<longrightarrow>
         SelectRelay_FirstAvailable dflt rs \<noteq> SelectRelay_FirstAvailable dflt []" ..
  then have "SelectRelay_FirstAvailable dflt [dflt] \<noteq> SelectRelay_FirstAvailable dflt []"
    by blast
  then show False by (simp add: SelectRelay_FirstAvailable_def)
qed

text \<open>
  Claim C4.  For every non-empty list the first-available algorithm returns the first
  element; for the empty list it returns the default-constructed \<^verbatim>\<open>RelayInfo\<close> ("no
  selection"), and so does the maximum-RSRP algorithm on the empty list and on a list
  whose only candidate is not eligible.
\<close>

theorem SelectRelay_FirstAvailable_first:
  "(rs \<noteq> [] \<longrightarrow> SelectRelay_FirstAvailable dflt rs = rs ! 0 \<and> SelectRelay_FirstAvailable dflt rs = hd rs)
   \<and> SelectRelay_FirstAvailable dflt [] = dflt
   \<and> SelectRelay_MaxRsrp dflt [] = dflt
   \<and> (\<not> eligible c \<longrightarrow> SelectRelay_MaxRsrp dflt [c] = dflt)
   \<and> SelectRelay_MaxRsrp dflt [\<lparr>l2Id = 1, relayCode = sc, rsrp = Finite (- 90), eligible = False\<rparr>] = dflt"
  by (simp add: SelectRelay_FirstAvailable_def SelectRelay_MaxRsrp_def hd_conv_nth)

text \<open>The theorem at a list of two candidates, and at a list of one ineligible candidate.\<close>

theorem SelectRelay_FirstAvailable_first_witness:
  "[\<lparr>l2Id = 4, relayCode = 5, rsrp = Finite (- 95), eligible = False\<rparr>,
    \<lparr>l2Id = 1, relayCode = 5, rsrp = Finite (- 80), eligible = True\<rparr>] \<noteq> []
   \<and> SelectRelay_FirstAvailable \<lparr>l2Id = 0, relayCode = 0, rsrp = NegInf, eligible = False\<rparr>
        [\<lparr>l2Id = 4, relayCode = 5, rsrp = Finite (- 95), eligible = False\<rparr>,
         \<lparr>l2Id = 1, relayCode = 5, rsrp = Finite (- 80), eligible = True\<rparr>]
      = \<lparr>l2Id = 4, relayCode = 5, rsrp = Finite (- 95), eligible = False\<rparr>
   \<and> \<not> eligible \<lparr>l2Id = 4, relayCode = 5, rsrp = Finite (- 95), eligible = False\<rparr>
   \<and> SelectRelay_MaxRsrp \<lparr>l2Id = 0, relayCode = 0, rsrp = NegInf, eligible = False\<rparr>
        [\<lparr>l2Id = 4, relayCode = 5, rsrp = Finite (- 95), eligible = False\<rparr>]
      = \<lparr>l2Id = 0, relayCode = 0, rsrp = NegInf, eligible = False\<rparr>"
  using SelectRelay_FirstAvailable_first
          [of "[\<lparr>l2Id = 4, relayCode = 5, rsrp = Finite (- 95), eligible = False\<rparr>,
                \<lparr>l2Id = 1, relayCode = 5, rsrp = Finite (- 80), eligible = True\<rparr>]"
              "\<lparr>l2Id = 0, relayCode = 0, rsrp = NegInf, eligible = False\<rparr>"
              "\<lparr>l2Id = 4, relayCode = 5, rsrp = Finite (- 95), eligible = False\<rparr>"]
  by simp









section \<open>Claims about the ProSe helper\<close>

lemma call_prose_simps [simp]:
  "scheduled (call_prose u c w) = scheduled w"
  "Now (call_prose u c w) = Now w"
  "slInfos (call_prose u c w) = slInfos w"
  "rrc_SourceL2Id (devices (call_prose u c w) x) = rrc_SourceL2Id (devices w x)"
  "rrc_Imsi (devices (call_prose u c w) x) = rrc_Imsi (devices w x)"
  "prose_calls (devices (call_prose u c w) u) = prose_calls (devices w u) @ [c]"
  by (simp_all add: call_prose_def)

lemma set_L2Id_simps [simp]:
  "scheduled (set_dstL2Id s v w) = scheduled w"
  "scheduled (set_srcL2Id s v w) = scheduled w"
  "Now (set_dstL2Id s v w) = Now w"
  "Now (set_srcL2Id s v w) = Now w"
  "devices (set_dstL2Id s v w) = devices w"
  "devices (set_srcL2Id s v w) = devices w"
  by (simp_all add: set_dstL2Id_def set_srcL2Id_def)

lemma Schedule_simps [simp]:
  "Now (Schedule t ue a b c d e f w) = Now w"
  "slInfos (Schedule t ue a b c d e f w) = slInfos w"
  "devices (Schedule t ue a b c d e f w) = devices w"
  by (simp_all add: Schedule_def)

text \<open>
  Claim C6.  A relay connection requested with a relay service code \<open>\<le> 0\<close> (for the
  unsigned 32-bit code: with the code 0) fails with the fatal error before anything is
  changed or scheduled: the result is the error alone.  With a service code \<open>> 0\<close> the
  check passes and the two calls of \<^verbatim>\<open>AddDirectLinkConnection\<close> are scheduled, at the same
  time, first on the remote UE as initiating UE, then on the relay UE as target UE, both
  with the service code.
\<close>

theorem EstablishL3UeToNetworkRelayConnection_service_code:
  "((code \<le> 0) = (code = 0))
   \<and> (code \<le> 0 \<longrightarrow>
        EstablishL3UeToNetworkRelayConnection t remoteUe remoteUeIp remoteSl relayUe relayUeIp relaySl code w
          = Inl InvalidServiceCode)
   \<and> (0 < code \<longrightarrow>
        (\<exists>w'. EstablishL3UeToNetworkRelayConnection t remoteUe remoteUeIp remoteSl relayUe relayUeIp relaySl code w
                = Inr w'
            \<and> scheduled w' = scheduled w @
                 [\<lparr>call_time = Now w + t, call_ue = remoteUe,
                   call_selfL2Id = rrc_SourceL2Id (devices w remoteUe), call_selfIp = remoteUeIp,
                   call_peerL2Id = rrc_SourceL2Id (devices w relayUe), call_isInitiating = True,
                   call_relayServiceCode = code, call_slInfo = slInfos w' remoteSl\<rparr>,
                  \<lparr>call_time = Now w + t, call_ue = relayUe,
                   call_selfL2Id = rrc_SourceL2Id (devices w relayUe), call_selfIp = relayUeIp,
                   call_peerL2Id = rrc_SourceL2Id (devices w remoteUe), call_isInitiating = False,
                   call_relayServiceCode = code, call_slInfo = slInfos w' relaySl\<rparr>]))"
proof (intro conjI impI)
  show "(code \<le> 0) = (code = 0)" by (rule word_le_0_iff)
next
  assume "code \<le> 0"
  then show "EstablishL3UeToNetworkRelayConnection t remoteUe remoteUeIp remoteSl relayUe relayUeIp relaySl code w
          = Inl InvalidServiceCode"
    by (simp add: EstablishL3UeToNetworkRelayConnection_def)
next
  assume "0 < code"
  then have n: "\<not> code \<le> 0" by (simp add: word_le_0_iff word_gt_0)
  show "\<exists>w'. EstablishL3UeToNetworkRelayConnection t remoteUe remoteUeIp remoteSl relayUe relayUeIp relaySl code w
                = Inr w'
            \<and> scheduled w' = scheduled w @
                 [\<lparr>call_time = Now w + t, call_ue = remoteUe,
                   call_selfL2Id = rrc_SourceL2Id (devices w remoteUe), call_selfIp = remoteUeIp,
                   call_peerL2Id = rrc_SourceL2Id (devices w relayUe), call_isInitiating = True,
                   call_relayServiceCode = code, call_slInfo = slInfos w' remoteSl\<rparr>,
                  \<lparr>call_time = Now w + t, call_ue = relayUe,
                   call_selfL2Id = rrc_SourceL2Id (devices w relayUe), call_selfIp = relayUeIp,
                   call_peerL2Id = rrc_SourceL2Id (devices w remoteUe), call_isInitiating = False,
                   call_relayServiceCode = code, call_slInfo = slInfos w' relaySl\<rparr>]"
    using n
    by (simp add: EstablishL3UeToNetworkRelayConnection_def Let_def SetImsi_def SetL2Id_def)
       (simp add: Schedule_def)
qed

text \<open>The theorem at two devices 1 and 2, with the service code 0 and with the code 5.\<close>

theorem EstablishL3UeToNetworkRelayConnection_service_code_witness:
  "(0 :: 32 word) \<le> 0
   \<and> EstablishL3UeToNetworkRelayConnection 2000 1 10 1 2 20 2 0
        \<lparr>Now = 0,
         devices = (\<lambda>n. \<lparr>rrc_Imsi = word_of_nat n, rrc_SourceL2Id = word_of_nat n,
                          prose_calls = []\<rparr>),
         slInfos = (\<lambda>n. \<lparr>m_srcL2Id = 0, m_dstL2Id = 0\<rparr>), scheduled = []\<rparr>
      = Inl InvalidServiceCode
   \<and> (0 :: 32 word) < 5
   \<and> map_sum id scheduled (EstablishL3UeToNetworkRelayConnection 2000 1 10 1 2 20 2 5
        \<lparr>Now = 0,
         devices = (\<lambda>n. \<lparr>rrc_Imsi = word_of_nat n, rrc_SourceL2Id = word_of_nat n,
                          prose_calls = []\<rparr>),
         slInfos = (\<lambda>n. \<lparr>m_srcL2Id = 0, m_dstL2Id = 0\<rparr>), scheduled = []\<rparr>)
      = Inr [\<lparr>call_time = 2000, call_ue = 1, call_selfL2Id = 1, call_selfIp = 10,
               call_peerL2Id = 2, call_isInitiating = True, call_relayServiceCode = 5,
               call_slInfo = \<lparr>m_srcL2Id = 1, m_dstL2Id = 2\<rparr>\<rparr>,
              \<lparr>call_time = 2000, call_ue = 2, call_selfL2Id = 2, call_selfIp = 20,
               call_peerL2Id = 1, call_isInitiating = False, call_relayServiceCode = 5,
               call_slInfo = \<lparr>m_srcL2Id = 2, m_dstL2Id = 1\<rparr>\<rparr>]"
  using EstablishL3UeToNetworkRelayConnection_service_code
          [of 0 2000 1 10 1 2 20 2
              "\<lparr>Now = 0,
         devices = (\<lambda>n. \<lparr>rrc_Imsi = word_of_nat n, rrc_SourceL2Id = word_of_nat n,
                          prose_calls = []\<rparr>),
         slInfos = (\<lambda>n. \<lparr>m_srcL2Id = 0, m_dstL2Id = 0\<rparr>), scheduled = []\<rparr>"]
        EstablishL3UeToNetworkRelayConnection_service_code
          [of 5 2000 1 10 1 2 20 2
              "\<lparr>Now = 0,
         devices = (\<lambda>n. \<lparr>rrc_Imsi = word_of_nat n, rrc_SourceL2Id = word_of_nat n,
                          prose_calls = []\<rparr>),
         slInfos = (\<lambda>n. \<lparr>m_srcL2Id = 0, m_dstL2Id = 0\<rparr>), scheduled = []\<rparr>"]
  by (simp add: EstablishL3UeToNetworkRelayConnection_def Let_def Schedule_def
        SetImsi_def SetL2Id_def call_prose_def set_dstL2Id_def set_srcL2Id_def)

lemma StartDiscoveryApp_rrc [simp]:
  "rrc_SourceL2Id (devices (StartDiscoveryApp ue a d r w) x) = rrc_SourceL2Id (devices w x)"
  "rrc_Imsi (devices (StartDiscoveryApp ue a d r w) x) = rrc_Imsi (devices w x)"
  by (simp_all add: StartDiscoveryApp_def Let_def AddDiscoveryApp_def SetImsi_def SetL2Id_def)

lemma StartDiscoveryApp_calls:
  "prose_calls (devices (StartDiscoveryApp ue a d r w) ue)
     = prose_calls (devices w ue)
       @ [CallSetL2Id (rrc_SourceL2Id (devices w ue)), CallSetImsi (rrc_Imsi (devices w ue)),
          CallAddDiscoveryApp a d r]"
  by (simp add: StartDiscoveryApp_def Let_def AddDiscoveryApp_def SetImsi_def SetL2Id_def)

lemma StartDiscovery_enough:
  "length appCodes \<le> length dst \<Longrightarrow>
     \<exists>w'. StartDiscovery ue appCodes dst r w = Inr w'
        \<and> prose_calls (devices w' ue)
            = prose_calls (devices w ue)
              @ concat (map (\<lambda>(a, d). [CallSetL2Id (rrc_SourceL2Id (devices w ue)),
                                        CallSetImsi (rrc_Imsi (devices w ue)),
                                        CallAddDiscoveryApp a d r])
                            (zip appCodes dst))"
proof (induction ue appCodes dst r w rule: StartDiscovery.induct)
  case (1 ueDevice dst r w)
  then show ?case by simp
next
  case (2 ueDevice it appCodes r w)
  then show ?case by simp
next
  case (3 ueDevice it appCodes d dst r w)
  then show ?case by (auto simp add: StartDiscoveryApp_calls)
qed

lemma StartDiscovery_short:
  "length dst < length appCodes \<Longrightarrow> StartDiscovery ue appCodes dst r w = Inl IteratorPastEnd"
  by (induction ue appCodes dst r w rule: StartDiscovery.induct) auto

text \<open>
  Claim C10.  When \<^verbatim>\<open>dstL2Ids\<close> has at least as many elements as \<^verbatim>\<open>appCodes\<close>,
  \<^verbatim>\<open>StartDiscovery\<close> returns after starting exactly one discovery application per element of
  \<^verbatim>\<open>appCodes\<close>, in order: the i-th \<^verbatim>\<open>StartDiscoveryApp\<close> sets the layer-2 identifier and
  the IMSI of the ProSe layer and adds the discovery application with the i-th
  application code and the i-th destination layer-2 identifier.  The condition is
  needed: when \<^verbatim>\<open>dstL2Ids\<close> is shorter, the iterator \<open>dst\<close> is dereferenced at the end of
  its list.
\<close>

theorem StartDiscovery_pairs:
  "(length appCodes \<le> length dstL2Ids \<longrightarrow>
      (\<exists>w'. StartDiscovery ue appCodes dstL2Ids r w = Inr w'
         \<and> prose_calls (devices w' ue)
             = prose_calls (devices w ue)
               @ concat (map (\<lambda>i. [CallSetL2Id (rrc_SourceL2Id (devices w ue)),
                                    CallSetImsi (rrc_Imsi (devices w ue)),
                                    CallAddDiscoveryApp (appCodes ! i) (dstL2Ids ! i) r])
                             [0..<length appCodes])))
   \<and> (length dstL2Ids < length appCodes \<longrightarrow>
        StartDiscovery ue appCodes dstL2Ids r w = Inl IteratorPastEnd)"
proof (intro conjI impI)
  assume le: "length appCodes \<le> length dstL2Ids"
  have "map (\<lambda>(a, d). [CallSetL2Id (rrc_SourceL2Id (devices w ue)),
                        CallSetImsi (rrc_Imsi (devices w ue)), CallAddDiscoveryApp a d r])
            (zip appCodes dstL2Ids)
          = map (\<lambda>i. [CallSetL2Id (rrc_SourceL2Id (devices w ue)),
                       CallSetImsi (rrc_Imsi (devices w ue)),
                       CallAddDiscoveryApp (appCodes ! i) (dstL2Ids ! i) r])
                [0..<length appCodes]"
    using le by (intro nth_equalityI) auto
  with StartDiscovery_enough[OF le, of ue r w]
  show "\<exists>w'. StartDiscovery ue appCodes dstL2Ids r w = Inr w'
         \<and> prose_calls (devices w' ue)
             = prose_calls (devices w ue)
               @ concat (map (\<lambda>i. [CallSetL2Id (rrc_SourceL2Id (devices w ue)),
                                    CallSetImsi (rrc_Imsi (devices w ue)),
                                    CallAddDiscoveryApp (appCodes ! i) (dstL2Ids ! i) r])
                             [0..<length appCodes])"
    by simp
next
  assume "length dstL2Ids < length appCodes"
  then show "StartDiscovery ue appCodes dstL2Ids r w = Inl IteratorPastEnd"
    by (rule StartDiscovery_short)
qed

text \<open>The theorem at two application codes, with three destinations and with one.\<close>

theorem StartDiscovery_pairs_witness:
  "length [11, 12 :: 32 word] \<le> length [101, 102, 103 :: 32 word]
   \<and> map_sum id (\<lambda>w'. prose_calls (devices w' 1))
       (StartDiscovery 1 [11, 12] [101, 102, 103] Monitor
        \<lparr>Now = 0,
         devices = (\<lambda>n. \<lparr>rrc_Imsi = word_of_nat n, rrc_SourceL2Id = word_of_nat n,
                          prose_calls = []\<rparr>),
         slInfos = (\<lambda>n. \<lparr>m_srcL2Id = 0, m_dstL2Id = 0\<rparr>), scheduled = []\<rparr>)
      = Inr [CallSetL2Id 1, CallSetImsi 1, CallAddDiscoveryApp 11 101 Monitor,
             CallSetL2Id 1, CallSetImsi 1, CallAddDiscoveryApp 12 102 Monitor]
   \<and> length [101 :: 32 word] < length [11, 12 :: 32 word]
   \<and> StartDiscovery 1 [11, 12] [101] Monitor
        \<lparr>Now = 0,
         devices = (\<lambda>n. \<lparr>rrc_Imsi = word_of_nat n, rrc_SourceL2Id = word_of_nat n,
                          prose_calls = []\<rparr>),
         slInfos = (\<lambda>n. \<lparr>m_srcL2Id = 0, m_dstL2Id = 0\<rparr>), scheduled = []\<rparr>
      = Inl IteratorPastEnd"
  using StartDiscovery_pairs
          [of "[11, 12]" "[101, 102, 103]" 1 Monitor
              "\<lparr>Now = 0,
         devices = (\<lambda>n. \<lparr>rrc_Imsi = word_of_nat n, rrc_SourceL2Id = word_of_nat n,
                          prose_calls = []\<rparr>),
         slInfos = (\<lambda>n. \<lparr>m_srcL2Id = 0, m_dstL2Id = 0\<rparr>), scheduled = []\<rparr>"]
        StartDiscovery_pairs
          [of "[11, 12]" "[101]" 1 Monitor
              "\<lparr>Now = 0,
         devices = (\<lambda>n. \<lparr>rrc_Imsi = word_of_nat n, rrc_SourceL2Id = word_of_nat n,
                          prose_calls = []\<rparr>),
         slInfos = (\<lambda>n. \<lparr>m_srcL2Id = 0, m_dstL2Id = 0\<rparr>), scheduled = []\<rparr>"]
  by (simp add: StartDiscoveryApp_def Let_def AddDiscoveryApp_def SetImsi_def SetL2Id_def
        call_prose_def)

section \<open>Claims about direct links\<close>

lemma advance_not_armed: "retransmitTimer l = None \<Longrightarrow> advance T5080 until l = Some (l, [])"
  by (subst advance.simps) simp

lemma advance_not_due:
  "retransmitTimer l = Some e \<Longrightarrow> until < e \<Longrightarrow> advance T5080 until l = Some (l, [])"
  by (subst advance.simps) simp

lemma on_timer_expiry_awaiting:
  "role l = Initiating \<Longrightarrow> state l = AwaitingResponse \<Longrightarrow>
     on_timer_expiry T5080 e l = (l\<lparr>retransmitTimer := Some (e + T5080)\<rparr>, [Send (peerId l) (request_of l)])"
  by (simp add: on_timer_expiry_def)

lemma advance_due:
  "role l = Initiating \<Longrightarrow> state l = AwaitingResponse \<Longrightarrow> retransmitTimer l = Some e \<Longrightarrow>
   e \<le> until \<Longrightarrow> 0 < T5080 \<Longrightarrow>
     advance T5080 until l
       = map_option (\<lambda>(l', rest). (l', (e, Send (peerId l) (request_of l)) # rest))
           (advance T5080 until (l\<lparr>retransmitTimer := Some (e + T5080)\<rparr>))"
  by (subst advance.simps) (simp add: on_timer_expiry_awaiting)

lemma request_of_timer [simp]: "request_of (l\<lparr>retransmitTimer := x\<rparr>) = request_of l"
  by (simp add: request_of_def)

lemma advance_awaiting:
  "role l = Initiating \<Longrightarrow> state l = AwaitingResponse \<Longrightarrow> retransmitTimer l = Some e \<Longrightarrow>
   0 < T5080 \<Longrightarrow> until < e + int k * T5080 \<Longrightarrow> (0 < k \<longrightarrow> e + (int k - 1) * T5080 \<le> until) \<Longrightarrow>
     advance T5080 until l
       = Some (l\<lparr>retransmitTimer := Some (e + int k * T5080)\<rparr>,
               map (\<lambda>i. (e + int i * T5080, Send (peerId l) (request_of l))) [0..<k])"
proof (induction k arbitrary: l e)
  case 0
  then show ?case by (simp add: advance_not_due)
next
  case (Suc k)
  have le: "e \<le> until"
  proof -
    have "e + int k * T5080 \<le> until" using Suc.prems(6) by simp
    moreover have "0 \<le> int k * T5080" using Suc.prems(4) by simp
    ultimately show ?thesis by linarith
  qed
  let ?l = "l\<lparr>retransmitTimer := Some (e + T5080)\<rparr>"
  have nxt: "advance T5080 until ?l
       = Some (?l\<lparr>retransmitTimer := Some ((e + T5080) + int k * T5080)\<rparr>,
               map (\<lambda>i. ((e + T5080) + int i * T5080, Send (peerId ?l) (request_of ?l))) [0..<k])"
  proof (rule Suc.IH)
    show "role ?l = Initiating" using Suc.prems(1) by simp
    show "state ?l = AwaitingResponse" using Suc.prems(2) by simp
    show "retransmitTimer ?l = Some (e + T5080)" by simp
    show "0 < T5080" by fact
    show "until < e + T5080 + int k * T5080" using Suc.prems(5) by (simp add: algebra_simps)
    show "0 < k \<longrightarrow> e + T5080 + (int k - 1) * T5080 \<le> until"
      using Suc.prems(6) by (simp add: algebra_simps)
  qed
  have shift: "map (\<lambda>i. (e + int i * T5080, Send (peerId l) (request_of l))) [0..<Suc k]
      = (e, Send (peerId l) (request_of l))
          # map (\<lambda>i. ((e + T5080) + int i * T5080, Send (peerId l) (request_of l))) [0..<k]"
    by (simp only: map_upt_Suc) (simp add: algebra_simps)
  show ?case
    unfolding advance_due[OF Suc.prems(1) Suc.prems(2) Suc.prems(3) le Suc.prems(4)] nxt shift
    by (simp add: algebra_simps)
qed


lemma start_idle:
  "role l = Initiating \<Longrightarrow> state l = Idle \<Longrightarrow>
     start T5080 clock l
       = (l\<lparr>state := AwaitingResponse, retransmitTimer := Some (clock + T5080)\<rparr>,
          [Send (peerId l) (request_of l)])"
  by (simp add: start_def)

lemma request_of_state [simp]: "request_of (l\<lparr>state := x\<rparr>) = request_of l"
  by (simp add: request_of_def)

lemma div_bounds:
  fixes d T :: int
  assumes "0 \<le> d" "0 < T"
  shows "int (nat (d div T)) * T \<le> d" and "d < (int (nat (d div T)) + 1) * T"
proof -
  have nn: "0 \<le> d div T" using assms by (simp add: pos_imp_zdiv_nonneg_iff)
  have eq: "d = d div T * T + d mod T" by simp
  moreover have "0 \<le> d mod T" using assms(2) by simp
  ultimately have "d div T * T \<le> d" by linarith
  then show "int (nat (d div T)) * T \<le> d" using nn by simp
  have "d mod T < T" using assms(2) by simp
  with eq have "d < d div T * T + T" by linarith
  then show "d < (int (nat (d div T)) + 1) * T" using nn by (simp add: algebra_simps)
qed

text \<open>
  Claim C8.  An initiating link that is started at time \<open>clock\<close> sends its request and,
  as long as neither Accept nor Reject arrives, retransmits it once per elapsed T5080
  interval: up to time \<open>t1\<close> exactly \<open>(t1 - clock) div T5080\<close> times, at the times
  \<open>clock + T5080\<close>, \<open>clock + 2 * T5080\<close>, ..., each time the very request sent first.  Once
  Accept is received the link is Established, its timer is cancelled, and nothing is sent
  however far simulated time advances afterwards.
\<close>

theorem T5080_retransmissions:
  assumes "role l0 = Initiating" and "state l0 = Idle" and "0 < T5080" and "clock \<le> t1"
  shows "let l1 = fst (start T5080 clock l0);
             k = nat ((t1 - clock) div T5080);
             lk = l1\<lparr>retransmitTimer := Some (clock + (int k + 1) * T5080)\<rparr>;
             la = fst (on_accept a lk)
         in snd (start T5080 clock l0) = [Send (peerId l0) (request_of l0)]
          \<and> advance T5080 t1 l1
              = Some (lk, map (\<lambda>i. (clock + (int i + 1) * T5080, Send (peerId l0) (request_of l0))) [0..<k])
          \<and> state la = Established
          \<and> advance T5080 t2 la = Some (la, [])
          \<and> handle T5080 t2 TimerExpiry la = (la, [])"
proof -
  define l1 where "l1 = l0\<lparr>state := AwaitingResponse, retransmitTimer := Some (clock + T5080)\<rparr>"
  define k where "k = nat ((t1 - clock) div T5080)"
  define lk where "lk = l1\<lparr>retransmitTimer := Some (clock + (int k + 1) * T5080)\<rparr>"
  define la where "la = fst (on_accept a lk)"
  have st: "start T5080 clock l0 = (l1, [Send (peerId l0) (request_of l0)])"
    unfolding l1_def using assms(1,2) by (rule start_idle)
  have d: "0 \<le> t1 - clock" using assms(4) by simp
  have l1: "role l1 = Initiating" "state l1 = AwaitingResponse"
    "retransmitTimer l1 = Some (clock + T5080)" "peerId l1 = peerId l0" "request_of l1 = request_of l0"
    using assms(1) by (simp_all add: l1_def)
  have up: "t1 < clock + T5080 + int k * T5080"
    using div_bounds(2)[OF d assms(3)] unfolding k_def by (simp add: algebra_simps)
  have lo: "0 < k \<longrightarrow> clock + T5080 + (int k - 1) * T5080 \<le> t1"
    using div_bounds(1)[OF d assms(3)] unfolding k_def[symmetric] by (simp add: algebra_simps)
  have adv: "advance T5080 t1 l1
       = Some (l1\<lparr>retransmitTimer := Some ((clock + T5080) + int k * T5080)\<rparr>,
               map (\<lambda>i. ((clock + T5080) + int i * T5080, Send (peerId l1) (request_of l1))) [0..<k])"
    using l1(1) l1(2) l1(3) assms(3) up lo by (rule advance_awaiting)
  have adv': "advance T5080 t1 l1
       = Some (lk, map (\<lambda>i. (clock + (int i + 1) * T5080, Send (peerId l0) (request_of l0))) [0..<k])"
    unfolding adv lk_def l1(4) l1(5) by (simp add: algebra_simps)
  have acc: "on_accept a lk
       = (lk\<lparr>retransmitTimer := None, peerAddress := Some a, state := Established\<rparr>,
          NotifyEstablished (peerId lk) # relay_trigger (relayServiceCode lk))"
    using l1(1) l1(2) by (simp add: on_accept_def lk_def)
  have none: "retransmitTimer la = None" unfolding la_def acc by simp
  have est: "state la = Established" unfolding la_def acc by simp
  have "snd (start T5080 clock l0) = [Send (peerId l0) (request_of l0)]
          \<and> advance T5080 t1 l1
              = Some (lk, map (\<lambda>i. (clock + (int i + 1) * T5080, Send (peerId l0) (request_of l0))) [0..<k])
          \<and> state la = Established
          \<and> advance T5080 t2 la = Some (la, [])
          \<and> handle T5080 t2 TimerExpiry la = (la, [])"
    using st adv' est advance_not_armed[OF none] none by simp
  then show ?thesis
    unfolding Let_def st fst_conv la_def lk_def k_def .
qed

text \<open>
  The theorem with T5080 = 8, a link started at time 0: up to time 20 it retransmits at
  8 and at 16; accepted then, it sends nothing up to time 1000.
\<close>

theorem T5080_retransmissions_witness:
  "role (new_link 1 2 10 True (Some 5)) = Initiating
   \<and> state (new_link 1 2 10 True (Some 5)) = Idle
   \<and> (0 :: int) < 8 \<and> (0 :: int) \<le> 20
   \<and> map_option snd (advance 8 20 (fst (start 8 0 (new_link 1 2 10 True (Some 5)))))
       = Some [(8, Send 2 (EstablishmentRequest 1 2 10 (Some 5))),
               (16, Send 2 (EstablishmentRequest 1 2 10 (Some 5)))]
   \<and> map_option snd (advance 8 1000
        (fst (on_accept 20 (fst (start 8 0 (new_link 1 2 10 True (Some 5)))
                               \<lparr>retransmitTimer := Some 24\<rparr>)))) = Some []"
  using T5080_retransmissions[of "new_link 1 2 10 True (Some 5)" 8 0 20 20 1000]
  by (simp add: new_link_def request_of_def Let_def eval_nat_numeral)

text \<open>
  Claim C7.  Calling \<open>addDirectLinkConnection\<close> a second time for the same peer, with
  whatever other arguments, signals AlreadyExists and leaves the controller, and so the
  first link and every other link, as the first call left it.  On a controller without a
  link to the peer the first call succeeds and creates the link.
\<close>

theorem addDirectLinkConnection_twice:
  "fst (addDirectLinkConnection T5080 clock2 peer addr2 init2 code2 qos2
          (fst (addDirectLinkConnection T5080 clock1 peer addr1 init1 code1 qos1 c)))
     = fst (addDirectLinkConnection T5080 clock1 peer addr1 init1 code1 qos1 c)
   \<and> snd (addDirectLinkConnection T5080 clock2 peer addr2 init2 code2 qos2
          (fst (addDirectLinkConnection T5080 clock1 peer addr1 init1 code1 qos1 c)))
     = Inl AlreadyExists
   \<and> (links c peer = None \<longrightarrow>
        (\<exists>out l. snd (addDirectLinkConnection T5080 clock1 peer addr1 init1 code1 qos1 c) = Inr out
           \<and> links (fst (addDirectLinkConnection T5080 clock1 peer addr1 init1 code1 qos1 c)) peer = Some l
           \<and> peerId l = peer \<and> localAddress l = addr1
           \<and> state l = (if init1 then AwaitingResponse else Idle)))"
  by (cases "links c peer")
     (simp_all add: addDirectLinkConnection_def start_def new_link_def)

text \<open>The theorem at a controller without links: the first call creates the link to
  peer 2 and sends the request, the second signals AlreadyExists.\<close>

theorem addDirectLinkConnection_twice_witness:
  "links \<lparr>endpointId = 1, links = Map.empty\<rparr> (2 :: 32 word) = None
   \<and> snd (addDirectLinkConnection 8 0 2 10 True (Some 5) ()
            \<lparr>endpointId = 1, links = Map.empty\<rparr>)
       = Inr [Send 2 (EstablishmentRequest 1 2 10 (Some 5))]
   \<and> addDirectLinkConnection 8 3 2 11 False None ()
        (fst (addDirectLinkConnection 8 0 2 10 True (Some 5) ()
               \<lparr>endpointId = 1, links = Map.empty\<rparr>))
       = (fst (addDirectLinkConnection 8 0 2 10 True (Some 5) ()
               \<lparr>endpointId = 1, links = Map.empty\<rparr>), Inl AlreadyExists)"
  using addDirectLinkConnection_twice
          [of 8 3 2 11 False None "()" 0 10 True "Some 5" "()" "\<lparr>endpointId = 1, links = Map.empty\<rparr>"]
  by (simp add: addDirectLinkConnection_def start_def new_link_def request_of_def prod_eq_iff)

end
